theory Spec2Isabelle
  imports Complex_Main "HOL-Library.Word"
begin

section \<open>Text\<close>

text \<open>
  A JavaScript string is a sequence of 16-bit code units; \<open>length\<close> counts code units.
  Literals of the source are written \<open>js ''...''\<close>.
\<close>

type_synonym jschar = "16 word"
type_synonym jsstring = "jschar list"

definition ch :: "char \<Rightarrow> jschar" where
  "ch c = word_of_nat (of_char c)"

definition js :: "string \<Rightarrow> jsstring" where
  "js s = map ch s"

text \<open>The character classes of ECMAScript: LineTerminator, WhiteSpace, \<open>\s\<close> and \<open>\d\<close>.\<close>

definition is_line_terminator :: "jschar \<Rightarrow> bool" where
  "is_line_terminator c = (c = 0x0A \<or> c = 0x0D \<or> c = 0x2028 \<or> c = 0x2029)"

definition is_white_space :: "jschar \<Rightarrow> bool" where
  "is_white_space c =
     (c = 0x09 \<or> c = 0x0B \<or> c = 0x0C \<or> c = 0x20 \<or> c = 0xA0 \<or> c = 0x1680 \<or>
      (0x2000 \<le> c \<and> c \<le> 0x200A) \<or> c = 0x202F \<or> c = 0x205F \<or> c = 0x3000 \<or>
      c = 0xFEFF)"

definition is_space :: "jschar \<Rightarrow> bool" where
  "is_space c = (is_white_space c \<or> is_line_terminator c)"

definition is_digit :: "jschar \<Rightarrow> bool" where
  "is_digit c = (0x30 \<le> c \<and> c \<le> 0x39)"

text \<open>\<open>String.prototype.trim\<close>: white space and line terminators go from both ends.\<close>

definition trim :: "jsstring \<Rightarrow> jsstring" where
  "trim s = rev (dropWhile is_space (rev (dropWhile is_space s)))"

text \<open>\<open>s.replace(/,/g, '')\<close>\<close>

definition strip_commas :: "jsstring \<Rightarrow> jsstring" where
  "strip_commas s = filter (\<lambda>c. c \<noteq> ch CHR '','') s"

section \<open>Regular expressions\<close>

text \<open>
  The fragment of ECMAScript regular expressions the program uses: literal characters,
  \<open>\s\<close>, \<open>\d\<close>, \<open>.\<close>, bracketed classes, sequence, alternation, the greedy
  quantifiers \<open>*\<close>, \<open>+\<close>, \<open>?\<close> and the lazy \<open>*?\<close>. None of the patterns has the
  \<open>u\<close>, \<open>s\<close>, \<open>g\<close> or \<open>y\<close> flag.

  With the \<open>i\<close> flag two code units match when their canonical forms are equal. All
  literal characters of the patterns are ASCII, and Canonicalize never maps a code unit
  from \<open>0x80\<close> on to an ASCII one, so for these patterns it is upper-casing of ASCII letters.
  The bracketed classes hold digits and punctuation only, which case folding leaves alone.
\<close>

definition ascii_upper :: "jschar \<Rightarrow> jschar" where
  "ascii_upper c = (if 0x61 \<le> c \<and> c \<le> 0x7A then c - 0x20 else c)"

definition canonicalize :: "bool \<Rightarrow> jschar \<Rightarrow> jschar" where
  "canonicalize ic c = (if ic \<and> c < 0x80 then ascii_upper c else c)"

datatype class_item = CChar jschar | CRange jschar jschar | CDigit

datatype atom = Lit jschar | WS | Dig | AnyChar | Class "class_item list"

datatype regex =
    Eps
  | Atom atom
  | Seq regex regex
  | Alt regex regex
  | Star regex
  | LazyStar regex

fun class_item_matches :: "class_item \<Rightarrow> jschar \<Rightarrow> bool" where
  "class_item_matches (CChar a) c = (c = a)"
| "class_item_matches (CRange lo hi) c = (lo \<le> c \<and> c \<le> hi)"
| "class_item_matches CDigit c = is_digit c"

fun atom_matches :: "bool \<Rightarrow> atom \<Rightarrow> jschar \<Rightarrow> bool" where
  "atom_matches ic (Lit a) c = (canonicalize ic c = canonicalize ic a)"
| "atom_matches ic WS c = is_space c"
| "atom_matches ic Dig c = is_digit c"
| "atom_matches ic AnyChar c = (\<not> is_line_terminator c)"
| "atom_matches ic (Class items) c = list_ex (\<lambda>i. class_item_matches i c) items"

text \<open>
  The backtracking matcher. \<open>rests ic r s\<close> lists, in the order in which the matcher tries
  them, the remaining inputs after each way in which \<open>r\<close> matches a prefix of \<open>s\<close>; the
  first element is the choice the matcher commits to unless what follows fails. A
  greedy star tries one more iteration before stopping, a lazy one stops first. An
  iteration of a star that consumes nothing is rejected, as in ECMAScript.
\<close>

fun rests :: "bool \<Rightarrow> regex \<Rightarrow> jsstring \<Rightarrow> jsstring list" where
  "rests ic Eps s = [s]"
| "rests ic (Atom a) s =
     (case s of [] \<Rightarrow> [] | c # cs \<Rightarrow> if atom_matches ic a c then [cs] else [])"
| "rests ic (Seq r1 r2) s = concat (map (\<lambda>s1. rests ic r2 s1) (rests ic r1 s))"
| "rests ic (Alt r1 r2) s = rests ic r1 s @ rests ic r2 s"
| "rests ic (Star r) s =
     concat (map (\<lambda>s1. if length s1 < length s then rests ic (Star r) s1 else [])
                 (rests ic r s)) @ [s]"
| "rests ic (LazyStar r) s =
     s # concat (map (\<lambda>s1. if length s1 < length s then rests ic (LazyStar r) s1 else [])
                     (rests ic r s))"

definition Plus :: "regex \<Rightarrow> regex" where
  "Plus r = Seq r (Star r)"

definition Opt :: "regex \<Rightarrow> regex" where
  "Opt r = Alt r Eps"

definition cat :: "regex list \<Rightarrow> regex" where
  "cat rs = foldr Seq rs Eps"

definition lit :: "string \<Rightarrow> regex list" where
  "lit s = map (\<lambda>c. Atom (Lit (ch c))) s"

text \<open>
  Every pattern of the program that reads a capture group has exactly one, at the top
  level of the pattern's sequence, so \<open>match[1]\<close> is a string whenever the pattern
  matches. A pattern is the terms before the group, the terms inside it and the terms
  after it.
\<close>

record pattern =
  before :: "regex list"
  inside :: "regex list"
  after :: "regex list"
  ignoreCase :: bool

record match_result =
  whole :: jsstring
  group1 :: jsstring

definition match_at :: "pattern \<Rightarrow> jsstring \<Rightarrow> match_result list" where
  "match_at p s =
     concat (map (\<lambda>s1.
       concat (map (\<lambda>s2.
         map (\<lambda>s3. \<lparr>whole = take (length s - length s3) s,
                     group1 = take (length s1 - length s2) s1\<rparr>)
             (rests (ignoreCase p) (cat (after p)) s2))
         (rests (ignoreCase p) (cat (inside p)) s1)))
       (rests (ignoreCase p) (cat (before p)) s))"

text \<open>
  \<open>text.match(pattern)\<close> for a pattern without the \<open>g\<close> flag: the start positions are
  tried from left to right, and the first position at which the matcher succeeds gives
  the result; \<open>None\<close> is \<open>null\<close>.
\<close>

fun str_match :: "pattern \<Rightarrow> jsstring \<Rightarrow> match_result option" where
  "str_match p [] = (case match_at p [] of m # _ \<Rightarrow> Some m | [] \<Rightarrow> None)"
| "str_match p (c # cs) =
     (case match_at p (c # cs) of m # _ \<Rightarrow> Some m | [] \<Rightarrow> str_match p cs)"

section \<open>Numbers\<close>

text \<open>
  Every numeric field of the program is a JavaScript number. The model keeps the two kinds
  of value the code can produce: \<open>NaN\<close> (what \<open>parseInt\<close> and \<open>parseFloat\<close> return on a
  string without a leading numeral) and a finite value, kept exact as a rational. A
  comparison with \<open>NaN\<close> on either side is false, and \<open>NaN === x\<close> is false for every \<open>x\<close>.
  The host rounds a value to the nearest double; rounding is monotone and exact on the
  integers up to \<open>2^53\<close>, so no comparison with the thresholds below depends on it.
\<close>

datatype number = NaN | Num rat

fun num_le :: "number \<Rightarrow> number \<Rightarrow> bool" where
  "num_le (Num a) (Num b) = (a \<le> b)"
| "num_le _ _ = False"

fun num_lt :: "number \<Rightarrow> number \<Rightarrow> bool" where
  "num_lt (Num a) (Num b) = (a < b)"
| "num_lt _ _ = False"

definition num_ge :: "number \<Rightarrow> number \<Rightarrow> bool" where
  "num_ge a b = num_le b a"

definition num_gt :: "number \<Rightarrow> number \<Rightarrow> bool" where
  "num_gt a b = num_lt b a"

fun strict_eq :: "number \<Rightarrow> number \<Rightarrow> bool" where
  "strict_eq (Num a) (Num b) = (a = b)"
| "strict_eq _ _ = False"

definition digit_value :: "jschar \<Rightarrow> nat" where
  "digit_value c = unat c - 48"

definition decimal :: "jsstring \<Rightarrow> nat" where
  "decimal ds = foldl (\<lambda>acc d. 10 * acc + digit_value d) 0 ds"

text \<open>
  \<open>parseInt\<close> and \<open>parseFloat\<close> on the strings that reach them here. \<open>parseInt\<close> is
  called on a capture of \<open>[0-9,]+\<close> or \<open>[\d,]+\<close> with the commas removed, and
  \<open>parseFloat\<close> on a match of \<open>\d+\.?\d*\<close> or \<open>[\d.]+\<close>: such a string has no leading white
  space, sign, radix prefix or exponent, so the result is the value of the longest
  leading decimal numeral, and \<open>NaN\<close> when there is none.
\<close>

definition parseInt :: "jsstring \<Rightarrow> number" where
  "parseInt s =
     (let ds = takeWhile is_digit s
      in if ds = [] then NaN else Num (of_nat (decimal ds)))"

definition parseFloat :: "jsstring \<Rightarrow> number" where
  "parseFloat s =
     (let ip = takeWhile is_digit s;
          r = dropWhile is_digit s;
          fp = (case r of [] \<Rightarrow> []
                | c # cs \<Rightarrow> if c = ch CHR ''.'' then takeWhile is_digit cs else [])
      in if ip = [] \<and> fp = [] then NaN
         else Num (of_nat (decimal ip) + of_nat (decimal fp) / 10 ^ length fp))"

text \<open>\<open>Math.round\<close>: the nearest integer, a tie going up.\<close>

definition math_round :: "rat \<Rightarrow> rat" where
  "math_round x = of_int \<lfloor>x + 1 / 2\<rfloor>"

section \<open>Document queries\<close>

text \<open>
  The page arrives from the browser as markup and is queried through cheerio. A
  selection is the list of the nodes a selector matched, in document order, each node
  given by its text content. A selection is an object, hence truthy even when empty.
\<close>

type_synonym selection = "jsstring list"

definition first :: "selection \<Rightarrow> selection" where
  "first sel = take 1 sel"

definition text_of :: "selection \<Rightarrow> jsstring" where
  "text_of sel = concat sel"

definition truthy_selection :: "selection \<Rightarrow> bool" where
  "truthy_selection sel = True"

definition or_selection :: "selection \<Rightarrow> selection \<Rightarrow> selection" where
  "or_selection a b = (if truthy_selection a then a else b)"

text \<open>
  One search result (\<open>element\<close> in the item loop): its text and what each query of the
  loop body finds in it. \<open>h2_a_span\<close> is \<open>element.find('h2 a span')\<close>,
  \<open>h2_text_normal\<close> is \<open>element.find('h2 .a-text-normal')\<close>, \<open>h2_a\<close> is
  \<open>element.find('h2 a')\<close>, \<open>data_asin\<close> is \<open>element.attr('data-asin')\<close> (\<open>None\<close> when
  the attribute is absent), \<open>a_price_whole\<close> is \<open>element.find('.a-price-whole')\<close> and
  \<open>a_icon_alt\<close> is \<open>element.find('.a-icon-alt')\<close>. Of a page the program reads the two
  places of the result banner and the list of the search results.
\<close>

record fragment =
  element_text :: jsstring
  h2_a_span :: selection
  h2_text_normal :: selection
  h2_a :: selection
  data_asin :: "jsstring option"
  a_price_whole :: selection
  a_icon_alt :: selection

record page =
  result_info_bar :: selection
  small_section :: selection
  search_results :: "fragment list"

section \<open>Pattern extractor\<close>

record item =
  title :: jsstring
  asin :: jsstring
  price :: number
  bsr :: number
  rating :: number
  reviews :: number

definition extract_title :: "fragment \<Rightarrow> jsstring" where
  "extract_title element =
     (let titleElement =
            or_selection (first (h2_a_span element))
              (or_selection (first (h2_text_normal element)) (first (h2_a element)))
      in if length titleElement > 0 then trim (text_of titleElement) else [])"

definition extract_asin :: "fragment \<Rightarrow> jsstring" where
  "extract_asin element =
     (case data_asin element of
        None \<Rightarrow> js ''N/A''
      | Some a \<Rightarrow> if a = [] then js ''N/A'' else a)"

definition digit_or_comma :: regex where
  "digit_or_comma = Atom (Class [CRange (ch CHR ''0'') (ch CHR ''9''), CChar (ch CHR '','')])"

definition d_or_comma :: regex where
  "d_or_comma = Atom (Class [CDigit, CChar (ch CHR '','')])"

definition hash :: regex where
  "hash = Atom (Class [CChar (ch CHR ''#'')])"

definition price_pattern :: pattern where
  "price_pattern =
     \<lparr>before = [], inside = [Plus (Atom (Class [CDigit, CChar (ch CHR ''.'')]))], after = [],
      ignoreCase = False\<rparr>"

definition extract_price :: "fragment \<Rightarrow> number" where
  "extract_price element =
     (let priceElement = a_price_whole element
      in if length priceElement > 0
         then (case str_match price_pattern (text_of priceElement) of
                 Some priceMatch \<Rightarrow> parseFloat (whole priceMatch)
               | None \<Rightarrow> Num 0)
         else Num 0)"

definition best_sellers_rank :: "regex list" where
  "best_sellers_rank =
     lit ''Best'' @ [Star (Atom WS)] @ lit ''Seller'' @ [Opt (Atom (Lit (ch CHR ''s'')))] @
     [Star (Atom WS)] @ lit ''Rank'' @ [LazyStar (Atom AnyChar), hash]"

definition bsr_pattern1 :: pattern where
  "bsr_pattern1 =
     \<lparr>before = best_sellers_rank, inside = [Plus digit_or_comma], after = [],
      ignoreCase = True\<rparr>"

definition bsr_pattern2 :: pattern where
  "bsr_pattern2 =
     \<lparr>before = [hash], inside = [Plus digit_or_comma],
      after = [Plus (Atom WS)] @ lit ''in'' @ [Plus (Atom WS)] @ lit ''Books'',
      ignoreCase = True\<rparr>"

definition bsr_pattern3 :: pattern where
  "bsr_pattern3 =
     \<lparr>before = lit ''Amazon'' @ [Star (Atom WS)] @ best_sellers_rank,
      inside = [Plus digit_or_comma], after = [], ignoreCase = True\<rparr>"

definition bsr_pattern4 :: pattern where
  "bsr_pattern4 =
     \<lparr>before = [hash], inside = [Plus digit_or_comma], after = [], ignoreCase = False\<rparr>"

definition bsrPatterns :: "pattern list" where
  "bsrPatterns = [bsr_pattern1, bsr_pattern2, bsr_pattern3, bsr_pattern4]"

text \<open>The loop over the patterns: the first pattern that matches sets \<open>bsr\<close> and breaks.\<close>

fun bsr_loop :: "pattern list \<Rightarrow> jsstring \<Rightarrow> number \<Rightarrow> number" where
  "bsr_loop [] text unknown = unknown"
| "bsr_loop (p # patterns) text unknown =
     (case str_match p text of
        Some m \<Rightarrow> parseInt (strip_commas (group1 m))
      | None \<Rightarrow> bsr_loop patterns text unknown)"

definition extract_bsr :: "jsstring \<Rightarrow> number" where
  "extract_bsr text = bsr_loop bsrPatterns text (Num 999999)"

definition rating_pattern :: pattern where
  "rating_pattern =
     \<lparr>before = [],
      inside = [Plus (Atom Dig), Opt (Atom (Lit (ch CHR ''.''))), Star (Atom Dig)],
      after = [Star (Atom WS)] @ lit ''out'' @ [Star (Atom WS)] @ lit ''of'',
      ignoreCase = False\<rparr>"

definition extract_rating :: "fragment \<Rightarrow> number" where
  "extract_rating element =
     (let ratingElement = a_icon_alt element
      in if length ratingElement > 0
         then (case str_match rating_pattern (text_of ratingElement) of
                 Some ratingMatch \<Rightarrow> parseFloat (group1 ratingMatch)
               | None \<Rightarrow> Num 0)
         else Num 0)"

definition ratings_or_reviews :: regex where
  "ratings_or_reviews =
     Alt (cat (lit ''rating'' @ [Opt (Atom (Lit (ch CHR ''s'')))]))
         (cat (lit ''review'' @ [Opt (Atom (Lit (ch CHR ''s'')))]))"

definition review_pattern1 :: pattern where
  "review_pattern1 =
     \<lparr>before = lit ''('', inside = [Plus d_or_comma],
      after = [Star (Atom WS), ratings_or_reviews] @ lit '')'',
      ignoreCase = True\<rparr>"

definition review_pattern2 :: pattern where
  "review_pattern2 =
     \<lparr>before = [], inside = [Plus d_or_comma],
      after = [Plus (Atom WS)] @ lit ''global'' @ [Plus (Atom WS), ratings_or_reviews],
      ignoreCase = True\<rparr>"

definition review_pattern3 :: pattern where
  "review_pattern3 =
     \<lparr>before = [], inside = [Plus d_or_comma],
      after = [Plus (Atom WS), ratings_or_reviews],
      ignoreCase = True\<rparr>"

text \<open>
  One review strategy: the number the pattern yields, or the value \<open>reviews\<close> had before
  when the pattern does not match.
\<close>

definition review_strategy :: "pattern \<Rightarrow> jsstring \<Rightarrow> number \<Rightarrow> number" where
  "review_strategy p text current =
     (case str_match p text of
        Some m \<Rightarrow> parseInt (strip_commas (group1 m))
      | None \<Rightarrow> current)"

definition extract_reviews :: "jsstring \<Rightarrow> number" where
  "extract_reviews text =
     (let reviews = Num 0;
          reviews = review_strategy review_pattern1 text reviews;
          reviews = (if strict_eq reviews (Num 0)
                     then review_strategy review_pattern2 text reviews else reviews);
          reviews = (if strict_eq reviews (Num 0)
                     then review_strategy review_pattern3 text reviews else reviews)
      in reviews)"

section \<open>Scoring engine: the three scores\<close>

datatype tier = green | yellow | red

record tier_score =
  score :: tier
  "value" :: nat

record counted_score = tier_score +
  count :: nat

definition calculatePopularity :: "number \<Rightarrow> tier_score" where
  "calculatePopularity totalResults =
     (if num_le totalResults (Num 1000) then \<lparr>score = green, value = 100\<rparr>
      else if num_le totalResults (Num 3000) then \<lparr>score = yellow, value = 50\<rparr>
      else \<lparr>score = red, value = 0\<rparr>)"

definition calculateProfitability :: "item list \<Rightarrow> counted_score" where
  "calculateProfitability items =
     (let profitableBooks =
            length (filter (\<lambda>item. num_gt (bsr item) (Num 0) \<and>
                                   num_le (bsr item) (Num 30000) \<and>
                                   num_le (reviews item) (Num 200)) items)
      in if profitableBooks \<ge> 6 then \<lparr>score = green, value = 100, count = profitableBooks\<rparr>
         else if profitableBooks \<ge> 3 then \<lparr>score = yellow, value = 50, count = profitableBooks\<rparr>
         else \<lparr>score = red, value = 0, count = profitableBooks\<rparr>)"

definition calculateCompetition :: "item list \<Rightarrow> counted_score" where
  "calculateCompetition items =
     (let competitiveBooks = length (filter (\<lambda>item. num_ge (reviews item) (Num 500)) items)
      in if competitiveBooks \<le> 3 then \<lparr>score = green, value = 100, count = competitiveBooks\<rparr>
         else if competitiveBooks \<le> 6 then \<lparr>score = yellow, value = 50, count = competitiveBooks\<rparr>
         else \<lparr>score = red, value = 0, count = competitiveBooks\<rparr>)"

section \<open>Listing aggregator\<close>

text \<open>
  The body of the item loop. \<open>None\<close> is the \<open>continue\<close> of a rejected title; nothing else
  in the body can leave the iteration early, since no call in it throws.
\<close>

definition extract_item :: "fragment \<Rightarrow> item option" where
  "extract_item element =
     (let text = element_text element;
          title = extract_title element
      in if title = [] \<or> length title < 5 then None
         else Some \<lparr>title = title, asin = extract_asin element,
                    price = extract_price element, bsr = extract_bsr text,
                    rating = extract_rating element, reviews = extract_reviews text\<rparr>)"

fun item_loop :: "fragment list \<Rightarrow> item list \<Rightarrow> item list" where
  "item_loop [] items = items"
| "item_loop (element # bookElements) items =
     (case extract_item element of
        None \<Rightarrow> item_loop bookElements items
      | Some it \<Rightarrow> item_loop bookElements (items @ [it]))"

definition scrape_items :: "fragment list \<Rightarrow> item list" where
  "scrape_items bookElements =
     item_loop (take (min (length bookElements) 20) bookElements) []"

definition total_pattern :: pattern where
  "total_pattern =
     \<lparr>before = lit ''of'' @ [Plus (Atom WS), Opt (cat (lit ''over'' @ [Plus (Atom WS)]))],
      inside = [Plus digit_or_comma],
      after = [Plus (Atom WS)] @ lit ''results'',
      ignoreCase = True\<rparr>"

definition extract_total :: "page \<Rightarrow> number" where
  "extract_total pg =
     (let totalText = (if text_of (result_info_bar pg) \<noteq> [] then text_of (result_info_bar pg)
                       else text_of (small_section pg))
      in if totalText \<noteq> []
         then (case str_match total_pattern totalText of
                 Some totalMatch \<Rightarrow> parseInt (strip_commas (group1 totalMatch))
               | None \<Rightarrow> Num 0)
         else Num 0)"

fun the_num :: "number \<Rightarrow> rat" where
  "the_num (Num r) = r"
| "the_num NaN = 0"

definition average :: "number list \<Rightarrow> rat" where
  "average xs = sum_list (map the_num xs) / of_nat (length xs)"

record scrape_result =
  items :: "item list"
  avgBSR :: number
  avgRating :: number
  avgReviews :: number
  totalResults :: number
  firstPageCount :: nat

definition parse_page :: "page \<Rightarrow> scrape_result" where
  "parse_page pg =
     (let totalResults = extract_total pg;
          items = scrape_items (search_results pg);
          validBSRs = map bsr (filter (\<lambda>item. num_gt (bsr item) (Num 0) \<and>
                                               num_lt (bsr item) (Num 999999)) items);
          avgBSR = (if length validBSRs > 0 then Num (math_round (average validBSRs))
                    else Num 0);
          validReviews = map reviews (filter (\<lambda>item. num_gt (reviews item) (Num 0) \<and>
                                                      num_lt (reviews item) (Num 1000000)) items);
          avgReviews = (if length validReviews > 0 then Num (math_round (average validReviews))
                        else Num 0);
          validRatings = map rating (filter (\<lambda>item. num_gt (rating item) (Num 0) \<and>
                                                     num_le (rating item) (Num 5)) items);
          avgRating = (if length validRatings > 0
                       then Num (math_round (average validRatings * 10) / 10) else Num 0)
      in \<lparr>items = items, avgBSR = avgBSR, avgRating = avgRating, avgReviews = avgReviews,
          totalResults = totalResults, firstPageCount = length items\<rparr>)"

section \<open>Scoring engine: overall score\<close>

record score_set =
  popularity :: tier_score
  profitability :: counted_score
  competition :: counted_score
  overallScore :: rat

definition calculateScores :: "scrape_result \<Rightarrow> score_set" where
  "calculateScores data =
     (let popularity = calculatePopularity (totalResults data);
          profitability = calculateProfitability (items data);
          competition = calculateCompetition (items data);
          overallScore =
            math_round (of_nat (value popularity + value profitability + value competition) / 3)
      in \<lparr>popularity = popularity, profitability = profitability, competition = competition,
          overallScore = overallScore\<rparr>)"

section \<open>Analysis orchestrator\<close>

text \<open>
  The value of \<open>req.query.keyword\<close>: absent, a string, or an array or object built by the
  query parser (which is truthy). The browser session of \<open>scrapeAmazonData\<close> (launch,
  navigation, waiting, reading the content) is the external page fetcher: it gives the
  page, or throws an error with a message. The handler's trace is the list of the
  keywords for which the fetcher has been called.
\<close>

datatype query_value = Undefined | QString jsstring | QNested

fun falsy :: "query_value \<Rightarrow> bool" where
  "falsy Undefined = True"
| "falsy (QString s) = (s = [])"
| "falsy QNested = False"

type_synonym fetcher = "query_value \<Rightarrow> jsstring + page"

definition scrapeAmazonData ::
  "fetcher \<Rightarrow> query_value \<Rightarrow> query_value list \<Rightarrow> (jsstring + scrape_result) \<times> query_value list"
where
  "scrapeAmazonData fetch keyword trace =
     (case fetch keyword of
        Inl message \<Rightarrow> (Inl message, trace @ [keyword])
      | Inr pg \<Rightarrow> (Inr (parse_page pg), trace @ [keyword]))"

record analysis =
  keyword :: query_value
  data :: scrape_result
  scores :: score_set

datatype response =
    Status400 jsstring
  | Status500 jsstring jsstring
  | Status200 analysis

definition analyze ::
  "fetcher \<Rightarrow> query_value \<Rightarrow> query_value list \<Rightarrow> response \<times> query_value list"
where
  "analyze fetch query_keyword trace =
     (if falsy query_keyword then (Status400 (js ''Keyword is required''), trace)
      else (case scrapeAmazonData fetch query_keyword trace of
              (Inl message, trace') \<Rightarrow>
                (Status500 (js ''Failed to analyze keyword'') message, trace')
            | (Inr scraped, trace') \<Rightarrow>
                (Status200 \<lparr>keyword = query_keyword, data = scraped,
                            scores = calculateScores scraped\<rparr>,
                 trace')))"

section \<open>Conditions on texts\<close>

text \<open>
  Conditions used to state where a pattern matches. \<open>no_match_inside p pre rest\<close>: in the
  text \<open>pre @ rest\<close> the pattern \<open>p\<close> matches at no position inside \<open>pre\<close>.
  \<open>is_digit_or_comma\<close>: the class \<open>[0-9,]\<close>. \<open>group_ends suf\<close>: a digit group that is
  followed by \<open>suf\<close> cannot be continued into it. \<open>rank_head\<close> is the part of the first
  rank pattern up to the word \<open>Rank\<close>.
\<close>

fun no_match_inside :: "pattern \<Rightarrow> jsstring \<Rightarrow> jsstring \<Rightarrow> bool" where
  "no_match_inside p [] rest = True"
| "no_match_inside p (c # cs) rest = (match_at p (c # cs @ rest) = [] \<and> no_match_inside p cs rest)"

definition is_digit_or_comma :: "jschar \<Rightarrow> bool" where
  "is_digit_or_comma c = (is_digit c \<or> c = ch CHR '','')"

definition group_ends :: "jsstring \<Rightarrow> bool" where
  "group_ends suf = (case suf of [] \<Rightarrow> True | c # _ \<Rightarrow> \<not> is_digit_or_comma c)"

definition rank_head :: "regex list" where
  "rank_head = lit ''Best'' @ [Star (Atom WS)] @ lit ''Seller'' @ [Opt (Atom (Lit (ch CHR ''s'')))] @
     [Star (Atom WS)] @ lit ''Rank''"

section \<open>The conditions of the specification\<close>

text \<open>
  The two counting conditions as the specification words them, on numbers: an item
  counts as profitable when its rank is above 0 and at most 30000 and its review count
  is at most 200, and as competitive when its review count is at least 500. A field that
  is not a number satisfies no comparison.
\<close>

definition spec_profitable :: "item \<Rightarrow> bool" where
  "spec_profitable i =
     (case bsr i of
        NaN \<Rightarrow> False
      | Num r \<Rightarrow> (case reviews i of NaN \<Rightarrow> False | Num v \<Rightarrow> 0 < r \<and> r \<le> 30000 \<and> v \<le> 200))"

definition spec_competitive :: "item \<Rightarrow> bool" where
  "spec_competitive i = (case reviews i of NaN \<Rightarrow> False | Num v \<Rightarrow> 500 \<le> v)"

section \<open>Properties of the matcher\<close>

text \<open>
  The two star equations recur without changing the pattern, so they are unfolded by hand
  in the proofs and by \<open>eval_simps\<close> on concrete texts.
\<close>

declare rests.simps(5,6) [simp del]

lemmas eval_simps =
  js_def ch_def lit_def cat_def Plus_def Opt_def match_at_def canonicalize_def ascii_upper_def
  is_space_def is_white_space_def is_line_terminator_def is_digit_def rests.simps(5,6)
  hash_def digit_or_comma_def d_or_comma_def best_sellers_rank_def ratings_or_reviews_def
  bsr_pattern1_def bsr_pattern2_def bsr_pattern3_def bsr_pattern4_def
  review_pattern1_def review_pattern2_def review_pattern3_def rating_pattern_def
  price_pattern_def parseInt_def parseFloat_def strip_commas_def decimal_def digit_value_def

text \<open>
  Whatever a pattern leaves over is a suffix of its input, and a sequence of terms
  matches by matching its parts one after the other.
\<close>

lemma rests_suffix: "s' \<in> set (rests ic r s) \<Longrightarrow> \<exists>p. s = p @ s'"
proof (induction ic r s arbitrary: s' rule: rests.induct)
  case (1 ic s)
  then show ?case by simp
next
  case (2 ic a s)
  then show ?case by (cases s) (auto split: if_splits)
next
  case (3 ic r1 r2 s)
  from "3.prems" obtain s1 where s1: "s1 \<in> set (rests ic r1 s)" and s': "s' \<in> set (rests ic r2 s1)"
    by auto
  from "3.IH"(1) [OF s1] obtain p where "s = p @ s1" by blast
  moreover from "3.IH"(2) [OF s1 s'] obtain q where "s1 = q @ s'" by blast
  ultimately have "s = (p @ q) @ s'" by simp
  then show ?case by blast
next
  case (4 ic r1 r2 s)
  then show ?case by auto
next
  case (5 ic r s)
  show ?case
  proof (cases "s' = s")
    case True
    then show ?thesis by simp
  next
    case False
    with "5.prems" obtain s1 where s1: "s1 \<in> set (rests ic r s)" and len: "length s1 < length s"
      and s': "s' \<in> set (rests ic (Star r) s1)"
      by (subst (asm) rests.simps(5)) (auto split: if_splits)
    from "5.IH"(1) [OF s1] obtain p where "s = p @ s1" by blast
    moreover from "5.IH"(2) [OF s1 len s'] obtain q where "s1 = q @ s'" by blast
    ultimately have "s = (p @ q) @ s'" by simp
    then show ?thesis by blast
  qed
next
  case (6 ic r s)
  show ?case
  proof (cases "s' = s")
    case True
    then show ?thesis by simp
  next
    case False
    with "6.prems" obtain s1 where s1: "s1 \<in> set (rests ic r s)" and len: "length s1 < length s"
      and s': "s' \<in> set (rests ic (LazyStar r) s1)"
      by (subst (asm) rests.simps(6)) (auto split: if_splits)
    from "6.IH"(1) [OF s1] obtain p where "s = p @ s1" by blast
    moreover from "6.IH"(2) [OF s1 len s'] obtain q where "s1 = q @ s'" by blast
    ultimately have "s = (p @ q) @ s'" by simp
    then show ?thesis by blast
  qed
qed

lemma rests_length: "s' \<in> set (rests ic r s) \<Longrightarrow> length s' \<le> length s"
  using rests_suffix [of s' ic r s] by auto

lemma concat_map_over_concat:
  "concat (map f (concat xss)) = concat (map (\<lambda>xs. concat (map f xs)) xss)"
  by (induction xss) simp_all

lemma rests_cat_Cons:
  "rests ic (cat (r # rs)) s = concat (map (rests ic (cat rs)) (rests ic r s))"
  by (simp add: cat_def)

lemma rests_cat_append:
  "rests ic (cat (xs @ ys)) s = concat (map (rests ic (cat ys)) (rests ic (cat xs) s))"
proof (induction xs arbitrary: s)
  case Nil
  then show ?case by (simp add: cat_def)
next
  case (Cons x xs)
  have "rests ic (cat ((x # xs) @ ys)) s
          = concat (map (\<lambda>s1. rests ic (cat (xs @ ys)) s1) (rests ic x s))"
    by (simp add: cat_def)
  also have "\<dots> = concat (map (\<lambda>s1. concat (map (rests ic (cat ys)) (rests ic (cat xs) s1)))
                              (rests ic x s))"
    using Cons.IH by simp
  also have "\<dots> = concat (map (rests ic (cat ys)) (rests ic (cat (x # xs)) s))"
    by (simp add: cat_def concat_map_over_concat comp_def)
  finally show ?case .
qed

text \<open>
  \<open>str_match\<close> fails exactly when the pattern matches at no position, and a match it
  returns is the first one the matcher finds at some position. Positions at which the
  pattern does not match are skipped.
\<close>

lemma match_at_nonempty_iff:
  "match_at p s \<noteq> [] \<longleftrightarrow>
     (\<exists>s1 \<in> set (rests (ignoreCase p) (cat (before p)) s).
      \<exists>s2 \<in> set (rests (ignoreCase p) (cat (inside p)) s1).
        rests (ignoreCase p) (cat (after p)) s2 \<noteq> [])"
  by (auto simp: match_at_def)

lemma str_match_None_iff:
  "str_match p s = None \<longleftrightarrow> (\<forall>k \<le> length s. match_at p (drop k s) = [])"
proof (induction s)
  case Nil
  then show ?case by (simp split: list.splits)
next
  case (Cons c cs)
  have "(\<forall>k \<le> length (c # cs). match_at p (drop k (c # cs)) = [])
          \<longleftrightarrow> match_at p (c # cs) = [] \<and> (\<forall>k \<le> length cs. match_at p (drop k cs) = [])"
    (is "?L \<longleftrightarrow> ?R")
  proof
    assume l: ?L
    have "match_at p (c # cs) = []" using l [rule_format, of 0] by simp
    moreover have "match_at p (drop k cs) = []" if "k \<le> length cs" for k
      using l [rule_format, of "Suc k"] that by simp
    ultimately show ?R by blast
  next
    assume r: ?R
    show ?L
    proof (intro allI impI)
      fix k assume "k \<le> length (c # cs)"
      then show "match_at p (drop k (c # cs)) = []"
        using r by (cases k) auto
    qed
  qed
  then show ?case using Cons.IH by (simp split: list.splits)
qed

lemma str_match_Some_iff:
  "str_match p s \<noteq> None \<longleftrightarrow> (\<exists>k \<le> length s. match_at p (drop k s) \<noteq> [])"
  by (simp add: str_match_None_iff)

lemma str_match_Some_member:
  "str_match p s = Some m \<Longrightarrow> \<exists>k \<le> length s. \<exists>ms. match_at p (drop k s) = m # ms"
proof (induction s)
  case Nil
  then show ?case by (auto split: list.splits)
next
  case (Cons c cs)
  show ?case
  proof (cases "match_at p (c # cs)")
    case Nil
    with Cons.prems have "str_match p cs = Some m" by simp
    from Cons.IH [OF this] obtain k ms where "k \<le> length cs" "match_at p (drop k cs) = m # ms"
      by blast
    then have "Suc k \<le> length (c # cs)" "match_at p (drop (Suc k) (c # cs)) = m # ms"
      by simp_all
    then show ?thesis by blast
  next
    case (Cons m' ms)
    with Cons.prems have "m' = m" by simp
    with Cons have "match_at p (drop 0 (c # cs)) = m # ms" by simp
    then show ?thesis by blast
  qed
qed

lemma str_match_skip:
  "no_match_inside p pre rest \<Longrightarrow> str_match p (pre @ rest) = str_match p rest"
  by (induction pre) simp_all

subsection \<open>The strings that reach \<open>parseInt\<close>\<close>

text \<open>
  What a group \<open>[0-9,]+\<close> or \<open>[\d,]+\<close> captures holds digits and commas only, so
  \<open>parseInt\<close> is called on a string of decimal digits: its result is the number the
  digits write, and \<open>NaN\<close> when there is no digit.
\<close>

lemma rests_star_atom:
  "s' \<in> set (rests ic (Star (Atom a)) s) \<Longrightarrow>
   \<exists>ds. s = ds @ s' \<and> (\<forall>c \<in> set ds. atom_matches ic a c)"
proof (induction s)
  case Nil
  then show ?case by (subst (asm) rests.simps(5)) simp
next
  case (Cons c cs)
  show ?case
  proof (cases "s' = c # cs")
    case True
    then show ?thesis by simp
  next
    case False
    with Cons.prems have c: "atom_matches ic a c" and s': "s' \<in> set (rests ic (Star (Atom a)) cs)"
      by (subst (asm) rests.simps(5); auto split: if_splits)+
    from Cons.IH [OF s'] obtain ds where "cs = ds @ s'" "\<forall>c \<in> set ds. atom_matches ic a c"
      by blast
    with c have "c # cs = (c # ds) @ s' \<and> (\<forall>x \<in> set (c # ds). atom_matches ic a x)" by simp
    then show ?thesis by blast
  qed
qed

lemma rests_plus_atom:
  assumes "s' \<in> set (rests ic (cat [Plus (Atom a)]) s)"
  shows "\<exists>ds. s = ds @ s' \<and> (\<forall>c \<in> set ds. atom_matches ic a c)"
proof -
  from assms obtain c cs where s: "s = c # cs" and c: "atom_matches ic a c"
    and s': "s' \<in> set (rests ic (Star (Atom a)) cs)"
    by (cases s) (auto simp: cat_def Plus_def split: if_splits)
  from rests_star_atom [OF s'] obtain ds where "cs = ds @ s'" "\<forall>c \<in> set ds. atom_matches ic a c"
    by blast
  with c s have "s = (c # ds) @ s' \<and> (\<forall>x \<in> set (c # ds). atom_matches ic a x)" by simp
  then show ?thesis by blast
qed

lemma group1_of_class:
  assumes "m \<in> set (match_at p s)" "inside p = [Plus (Atom a)]"
  shows "\<forall>c \<in> set (group1 m). atom_matches (ignoreCase p) a c"
proof -
  from assms obtain s1 s2 where
    s2: "s2 \<in> set (rests (ignoreCase p) (cat [Plus (Atom a)]) s1)" and
    g: "group1 m = take (length s1 - length s2) s1"
    by (auto simp: match_at_def)
  from rests_plus_atom [OF s2] obtain ds where "s1 = ds @ s2"
    "\<forall>c \<in> set ds. atom_matches (ignoreCase p) a c" by blast
  then show ?thesis using g by simp
qed

lemma parseInt_of_digits:
  "\<forall>c \<in> set s. is_digit c \<Longrightarrow>
   parseInt s = (if s = [] then NaN else Num (of_nat (decimal s)))"
  by (simp add: parseInt_def Let_def takeWhile_eq_all_conv [THEN iffD2])

lemma captured_digits:
  assumes "str_match p txt = Some m"
    and "inside p = [Plus digit_or_comma] \<or> inside p = [Plus d_or_comma]"
  shows "\<forall>c \<in> set (strip_commas (group1 m)). is_digit c"
proof -
  from str_match_Some_member [OF assms(1)] obtain t where m: "m \<in> set (match_at p t)"
    by (metis list.set_intros(1))
  from assms(2) show ?thesis
  proof
    assume "inside p = [Plus digit_or_comma]"
    from group1_of_class [OF m this [unfolded digit_or_comma_def]]
    show ?thesis by (auto simp: strip_commas_def is_digit_def ch_def)
  next
    assume "inside p = [Plus d_or_comma]"
    from group1_of_class [OF m this [unfolded d_or_comma_def]]
    show ?thesis by (auto simp: strip_commas_def)
  qed
qed

lemma parseInt_arguments:
  assumes "str_match p txt = Some m"
    and "p \<in> set bsrPatterns \<or> p \<in> {review_pattern1, review_pattern2, review_pattern3} \<or>
         p = total_pattern"
  shows "parseInt (strip_commas (group1 m))
           = (if strip_commas (group1 m) = [] then NaN
              else Num (of_nat (decimal (strip_commas (group1 m)))))"
proof -
  from assms(2) have "inside p = [Plus digit_or_comma] \<or> inside p = [Plus d_or_comma]"
    by (auto simp: bsrPatterns_def bsr_pattern1_def bsr_pattern2_def bsr_pattern3_def
          bsr_pattern4_def review_pattern1_def review_pattern2_def review_pattern3_def
          total_pattern_def)
  from captured_digits [OF assms(1) this] show ?thesis by (rule parseInt_of_digits)
qed

section \<open>Properties of the pattern extractor: rank\<close>

text \<open>
  The first rank pattern on a text that starts with \<open>Best Sellers Rank\<close>: the lazy
  \<open>.*?\<close> stops at the first \<open>#\<close> that it can reach without crossing a line
  terminator, and the greedy group takes all the digits and commas that follow.
\<close>

lemma bsr_loop_unrolled:
  "extract_bsr text =
     (case str_match bsr_pattern1 text of
        Some m \<Rightarrow> parseInt (strip_commas (group1 m))
      | None \<Rightarrow>
     (case str_match bsr_pattern2 text of
        Some m \<Rightarrow> parseInt (strip_commas (group1 m))
      | None \<Rightarrow>
     (case str_match bsr_pattern3 text of
        Some m \<Rightarrow> parseInt (strip_commas (group1 m))
      | None \<Rightarrow>
     (case str_match bsr_pattern4 text of
        Some m \<Rightarrow> parseInt (strip_commas (group1 m))
      | None \<Rightarrow> Num 999999))))"
  by (simp add: extract_bsr_def bsrPatterns_def split: option.splits)

lemma best_sellers_rank_split: "best_sellers_rank = rank_head @ [LazyStar (Atom AnyChar), hash]"
  by (simp add: best_sellers_rank_def rank_head_def)

lemma rests_rank_head: "rests True (cat rank_head) (js ''Best Sellers Rank'' @ u) = [u]"
  by (simp add: rank_head_def eval_simps)

lemma rests_lazy_any_Cons:
  "\<not> is_line_terminator c \<Longrightarrow>
   rests ic (LazyStar (Atom AnyChar)) (c # cs) = (c # cs) # rests ic (LazyStar (Atom AnyChar)) cs"
  by (subst rests.simps(6)) simp

lemma rests_hash: "rests ic hash (c # cs) = (if c = ch CHR ''#'' then [cs] else [])"
  by (simp add: hash_def)

lemma rests_to_hash_Cons:
  assumes "\<not> is_line_terminator c"
  shows "rests ic (cat [LazyStar (Atom AnyChar), hash]) (c # cs)
           = (if c = ch CHR ''#'' then [cs] else []) @
             rests ic (cat [LazyStar (Atom AnyChar), hash]) cs"
  using assms by (simp add: cat_def rests_lazy_any_Cons rests_hash)

lemma hash_not_line_terminator: "\<not> is_line_terminator (ch CHR ''#'')"
  by (simp add: ch_def is_line_terminator_def)

lemma rests_to_hash:
  assumes "\<forall>c \<in> set mid. \<not> is_line_terminator c \<and> c \<noteq> ch CHR ''#''"
  shows "\<exists>more. rests ic (cat [LazyStar (Atom AnyChar), hash]) (mid @ ch CHR ''#'' # v) = v # more"
  using assms
proof (induction mid)
  case Nil
  then show ?case by (simp add: rests_to_hash_Cons [OF hash_not_line_terminator])
next
  case (Cons c mid)
  then show ?case by (simp add: rests_to_hash_Cons)
qed

lemma rests_digit_or_comma:
  "rests ic digit_or_comma [] = []"
  "rests ic digit_or_comma (c # cs) = (if is_digit_or_comma c then [cs] else [])"
  by (simp_all add: digit_or_comma_def is_digit_or_comma_def is_digit_def ch_def)

lemma rests_star_digits_stop:
  assumes "group_ends suf"
  shows "rests ic (Star digit_or_comma) suf = [suf]"
  using assms
  by (subst rests.simps(5)) (simp add: rests_digit_or_comma group_ends_def split: list.splits)

lemma rests_star_digits_Cons:
  assumes "is_digit_or_comma c"
  shows "rests ic (Star digit_or_comma) (c # cs) = rests ic (Star digit_or_comma) cs @ [c # cs]"
  using assms
  by (subst rests.simps(5)) (simp add: rests_digit_or_comma)

lemma rests_star_digits:
  assumes "\<forall>c \<in> set ds. is_digit_or_comma c" "group_ends suf"
  shows "\<exists>more. rests ic (Star digit_or_comma) (ds @ suf) = suf # more"
  using assms
proof (induction ds)
  case Nil
  then show ?case by (simp add: rests_star_digits_stop)
next
  case (Cons c ds)
  then obtain more where "rests ic (Star digit_or_comma) (ds @ suf) = suf # more" by auto
  then show ?case using Cons.prems by (simp add: rests_star_digits_Cons)
qed

lemma rests_plus_digits:
  assumes "ds \<noteq> []" "\<forall>c \<in> set ds. is_digit_or_comma c" "group_ends suf"
  shows "\<exists>more. rests ic (cat [Plus digit_or_comma]) (ds @ suf) = suf # more"
proof -
  from assms obtain c cs where ds: "ds = c # cs" by (cases ds) auto
  with assms have c: "is_digit_or_comma c" and cs: "\<forall>c \<in> set cs. is_digit_or_comma c" by auto
  from rests_star_digits [OF cs assms(3), of ic] obtain more
    where more: "rests ic (Star digit_or_comma) (cs @ suf) = suf # more" by blast
  have "rests ic digit_or_comma (c # cs @ suf) = [cs @ suf]"
    using c by (simp add: rests_digit_or_comma)
  then show ?thesis
    using more by (simp add: cat_def Plus_def ds)
qed

lemma match_at_rank_phrase:
  assumes mid: "\<forall>c \<in> set mid. \<not> is_line_terminator c \<and> c \<noteq> ch CHR ''#''"
    and ds: "ds \<noteq> []" "\<forall>c \<in> set ds. is_digit_or_comma c"
    and suf: "group_ends suf"
  shows "\<exists>m ms. match_at bsr_pattern1 (js ''Best Sellers Rank'' @ mid @ ch CHR ''#'' # ds @ suf)
                   = m # ms \<and> group1 m = ds"
proof -
  define v where "v = ds @ suf"
  define t where "t = js ''Best Sellers Rank'' @ mid @ ch CHR ''#'' # v"
  from rests_to_hash [OF mid, of True v] obtain more1 where
    more1: "rests True (cat [LazyStar (Atom AnyChar), hash]) (mid @ ch CHR ''#'' # v) = v # more1"
    by blast
  have b: "rests True (cat (before bsr_pattern1)) t = v # more1"
    unfolding t_def using more1
    by (simp add: bsr_pattern1_def best_sellers_rank_split rests_cat_append rests_rank_head)
  from rests_plus_digits [OF ds suf, of True] obtain more2 where
    more2: "rests True (cat (inside bsr_pattern1)) v = suf # more2"
    by (auto simp: v_def bsr_pattern1_def)
  have a: "rests True (cat (after bsr_pattern1)) suf = [suf]"
    by (simp add: bsr_pattern1_def cat_def)
  have i: "ignoreCase bsr_pattern1 = True" by (simp add: bsr_pattern1_def)
  have "take (length v - length suf) v = ds" by (simp add: v_def)
  then have "\<exists>m ms. match_at bsr_pattern1 t = m # ms \<and> group1 m = ds"
    by (simp add: match_at_def i b more2 a)
  then show ?thesis by (simp add: t_def v_def)
qed

lemma str_match_rank_phrase:
  assumes "no_match_inside bsr_pattern1 pre (js ''Best Sellers Rank'' @ mid @ ch CHR ''#'' # ds @ suf)"
    and mid: "\<forall>c \<in> set mid. \<not> is_line_terminator c \<and> c \<noteq> ch CHR ''#''"
    and ds: "ds \<noteq> []" "\<forall>c \<in> set ds. is_digit_or_comma c"
    and suf: "group_ends suf"
  shows "\<exists>m. str_match bsr_pattern1 (pre @ js ''Best Sellers Rank'' @ mid @ ch CHR ''#'' # ds @ suf)
                = Some m \<and> group1 m = ds"
proof -
  let ?t = "js ''Best Sellers Rank'' @ mid @ ch CHR ''#'' # ds @ suf"
  from match_at_rank_phrase [OF mid ds suf] obtain m ms where
    m: "match_at bsr_pattern1 ?t = m # ms" "group1 m = ds" by blast
  have "?t \<noteq> []" by (simp add: js_def)
  then obtain c cs where t: "?t = c # cs" by (cases ?t) auto
  have "str_match bsr_pattern1 ?t = Some m"
    unfolding t using m(1) [unfolded t] by simp
  then show ?thesis using str_match_skip [OF assms(1)] m(2) by simp
qed

text \<open>A match of the first rank pattern starts with the letter \<open>B\<close> or \<open>b\<close>.\<close>

lemma canonicalize_B:
  "(canonicalize True c = canonicalize True (ch CHR ''B'')) = (c = ch CHR ''B'' \<or> c = ch CHR ''b'')"
  by (auto simp: canonicalize_def ascii_upper_def ch_def)

lemma best_sellers_rank_needs_b:
  assumes "c \<noteq> ch CHR ''B''" "c \<noteq> ch CHR ''b''"
  shows "match_at bsr_pattern1 (c # cs) = []"
proof -
  obtain rs where rs: "best_sellers_rank = Atom (Lit (ch CHR ''B'')) # rs"
    by (simp add: best_sellers_rank_def lit_def)
  have "rests True (cat best_sellers_rank) (c # cs) = []"
    unfolding rs using assms by (simp add: cat_def canonicalize_B)
  then show ?thesis by (simp add: match_at_def bsr_pattern1_def)
qed

lemma no_match_inside_without_b:
  "\<forall>c \<in> set pre. c \<noteq> ch CHR ''B'' \<and> c \<noteq> ch CHR ''b'' \<Longrightarrow>
   no_match_inside bsr_pattern1 pre rest"
  by (induction pre) (simp_all add: best_sellers_rank_needs_b)

text \<open>
  C4, as amended. The rank is the number captured by the first of the four patterns that
  matches the text, tried in the order of \<open>bsrPatterns\<close>, with the commas removed, and
  999999 when none matches. In a text of the form
  \<open>pre @ ''Best Sellers Rank'' @ mid @ ''#'' @ ds @ suf\<close> in which the first pattern matches
  nowhere inside \<open>pre\<close>, \<open>mid\<close> holds no line terminator and no \<open>#\<close>, \<open>ds\<close> is a
  non-empty group of digits and commas and \<open>suf\<close> does not continue it, the rank is the
  number \<open>ds\<close>, wherever else a \<open>#\<close> with digits stands in \<open>pre\<close> or \<open>suf\<close>.
\<close>

theorem rank_pattern_precedence:
  "extract_bsr txt =
     (case str_match bsr_pattern1 txt of
        Some m \<Rightarrow> parseInt (strip_commas (group1 m))
      | None \<Rightarrow>
     (case str_match bsr_pattern2 txt of
        Some m \<Rightarrow> parseInt (strip_commas (group1 m))
      | None \<Rightarrow>
     (case str_match bsr_pattern3 txt of
        Some m \<Rightarrow> parseInt (strip_commas (group1 m))
      | None \<Rightarrow>
     (case str_match bsr_pattern4 txt of
        Some m \<Rightarrow> parseInt (strip_commas (group1 m))
      | None \<Rightarrow> Num 999999)))) \<and>
   (no_match_inside bsr_pattern1 pre (js ''Best Sellers Rank'' @ mid @ ch CHR ''#'' # ds @ suf) \<longrightarrow>
    (\<forall>c \<in> set mid. \<not> is_line_terminator c \<and> c \<noteq> ch CHR ''#'') \<longrightarrow>
    ds \<noteq> [] \<longrightarrow> (\<forall>c \<in> set ds. is_digit_or_comma c) \<longrightarrow> group_ends suf \<longrightarrow>
    extract_bsr (pre @ js ''Best Sellers Rank'' @ mid @ ch CHR ''#'' # ds @ suf)
      = parseInt (strip_commas ds))"
proof (intro conjI impI)
  show "extract_bsr txt =
     (case str_match bsr_pattern1 txt of
        Some m \<Rightarrow> parseInt (strip_commas (group1 m))
      | None \<Rightarrow>
     (case str_match bsr_pattern2 txt of
        Some m \<Rightarrow> parseInt (strip_commas (group1 m))
      | None \<Rightarrow>
     (case str_match bsr_pattern3 txt of
        Some m \<Rightarrow> parseInt (strip_commas (group1 m))
      | None \<Rightarrow>
     (case str_match bsr_pattern4 txt of
        Some m \<Rightarrow> parseInt (strip_commas (group1 m))
      | None \<Rightarrow> Num 999999))))"
    by (rule bsr_loop_unrolled)
next
  let ?t = "pre @ js ''Best Sellers Rank'' @ mid @ ch CHR ''#'' # ds @ suf"
  assume "no_match_inside bsr_pattern1 pre (js ''Best Sellers Rank'' @ mid @ ch CHR ''#'' # ds @ suf)"
    and "\<forall>c \<in> set mid. \<not> is_line_terminator c \<and> c \<noteq> ch CHR ''#''"
    and "ds \<noteq> []" and "\<forall>c \<in> set ds. is_digit_or_comma c" and "group_ends suf"
  from str_match_rank_phrase [OF this] obtain m where
    "str_match bsr_pattern1 ?t = Some m" "group1 m = ds" by blast
  then show "extract_bsr ?t = parseInt (strip_commas ds)"
    by (simp add: bsr_loop_unrolled)
qed

theorem rank_pattern_precedence_witness:
  "extract_bsr (js ''#999 Best Sellers Rank ... #500 #999'') = Num 500 \<and>
   extract_bsr (js ''No rank on this listing'') = Num 999999"
  using rank_pattern_precedence
          [of "js ''No rank on this listing''" "js ''#999 ''" "js '' ... ''" "js ''500''"
              "js '' #999''"]
  by (simp add: eval_simps is_digit_or_comma_def group_ends_def)

text \<open>
  This text holds both \<open>Best Sellers Rank ... #500\<close> and a bare \<open>#999\<close>, and its rank is
  7: the first pattern matches at the leftmost rank phrase and lazily stops at the first
  \<open>#\<close> with digits.
\<close>

theorem rank_earlier_phrase_counterexample:
  "extract_bsr (js ''Best Sellers Rank #7 in Cooking. '' @ js ''Best Sellers Rank ... #500'' @
                js '' in Books. Item '' @ js ''#999'') = Num 7"
  by (simp add: eval_simps extract_bsr_def bsrPatterns_def)

text \<open>
  The dot of the first pattern does not match a line terminator: with a line break
  between the word \<open>Rank\<close> and the number, the first three patterns fail and the bare
  pattern takes the leftmost number.
\<close>

lemma rank_phrase_across_line_break:
  "extract_bsr (js ''#999 '' @ js ''Best Sellers Rank'' @ [0x0A] @ js ''#500'') = Num 999"
  by (simp add: eval_simps extract_bsr_def bsrPatterns_def)

text \<open>
  The lazy \<open>.*?\<close> stops at the first \<open>#\<close> with digits after the word \<open>Rank\<close>, and the
  group takes every digit that follows.
\<close>

lemma rank_phrase_with_earlier_hash:
  "extract_bsr (js ''Best Sellers Rank'' @ js '' #999 of 1000, was '' @ js ''#500'') = Num 999"
  by (simp add: eval_simps extract_bsr_def bsrPatterns_def)

lemma rank_phrase_with_more_digits:
  "extract_bsr (js ''#999 '' @ js ''Best Sellers Rank ... #500'' @ js ''0'') = Num 5000"
  by (simp add: eval_simps extract_bsr_def bsrPatterns_def)

text \<open>
  The second pattern goes before the bare one: the number in front of \<open>in Books\<close> is
  taken although a bare number stands further left.
\<close>

lemma rank_in_books_before_bare_number:
  "extract_bsr (js ''Item #12 of 30, #1,234 in Books'') = Num 1234"
  by (simp add: eval_simps extract_bsr_def bsrPatterns_def)

text \<open>
  The third pattern is the first one with \<open>Amazon\<close> and white space in front, so where
  the third matches, the first matches a little further right.
\<close>

lemma match_at_pattern3:
  assumes "match_at bsr_pattern3 s \<noteq> []"
  shows "\<exists>k \<le> length s. match_at bsr_pattern1 (drop k s) \<noteq> []"
proof -
  let ?A = "lit ''Amazon'' @ [Star (Atom WS)]"
  have b3: "before bsr_pattern3 = ?A @ before bsr_pattern1"
    by (simp add: bsr_pattern3_def bsr_pattern1_def)
  have i3: "inside bsr_pattern3 = inside bsr_pattern1" "after bsr_pattern3 = after bsr_pattern1"
    "ignoreCase bsr_pattern3 = True" "ignoreCase bsr_pattern1 = True"
    by (simp_all add: bsr_pattern3_def bsr_pattern1_def)
  from assms obtain s1 s2 where
    s1: "s1 \<in> set (rests True (cat (?A @ before bsr_pattern1)) s)" and
    s2: "s2 \<in> set (rests True (cat (inside bsr_pattern1)) s1)" and
    s3: "rests True (cat (after bsr_pattern1)) s2 \<noteq> []"
    unfolding match_at_nonempty_iff b3 i3 by blast
  from s1 obtain s0 where s0: "s0 \<in> set (rests True (cat ?A) s)"
    and s1': "s1 \<in> set (rests True (cat (before bsr_pattern1)) s0)"
    unfolding rests_cat_append [of True ?A] by auto
  from rests_suffix [OF s0] obtain q where q: "s = q @ s0" by blast
  have "match_at bsr_pattern1 s0 \<noteq> []"
    unfolding match_at_nonempty_iff i3 using s1' s2 s3 by blast
  then have "match_at bsr_pattern1 (drop (length q) s) \<noteq> []" using q by simp
  moreover have "length q \<le> length s" using q by simp
  ultimately show ?thesis by blast
qed

lemma pattern3_implies_pattern1:
  assumes "str_match bsr_pattern3 s \<noteq> None"
  shows "str_match bsr_pattern1 s \<noteq> None"
proof -
  from assms obtain k where k: "k \<le> length s" and m: "match_at bsr_pattern3 (drop k s) \<noteq> []"
    unfolding str_match_Some_iff by blast
  from match_at_pattern3 [OF m] obtain j where
    j: "j \<le> length (drop k s)" and m1: "match_at bsr_pattern1 (drop j (drop k s)) \<noteq> []"
    by blast
  have "j + k \<le> length s" using j k by simp
  moreover have "match_at bsr_pattern1 (drop (j + k) s) \<noteq> []" using m1 by simp
  ultimately show ?thesis unfolding str_match_Some_iff by blast
qed

text \<open>
  C10, as amended. Every text that the third rank pattern matches is matched by the first
  pattern too, so the loop never reaches the third pattern, and the loop over the other
  three patterns extracts the same rank from every text. The first pattern need not
  capture the same digits as the third: it may match further left.
\<close>

theorem third_pattern_unreachable:
  "(str_match bsr_pattern3 text \<noteq> None \<longrightarrow> str_match bsr_pattern1 text \<noteq> None) \<and>
   bsr_loop [bsr_pattern1, bsr_pattern2, bsr_pattern4] text (Num 999999) = extract_bsr text"
proof (cases "str_match bsr_pattern3 text")
  case None
  then show ?thesis by (simp add: extract_bsr_def bsrPatterns_def split: option.splits)
next
  case (Some m)
  then have "str_match bsr_pattern1 text \<noteq> None"
    using pattern3_implies_pattern1 [of "text"] by simp
  then show ?thesis by (auto simp: extract_bsr_def bsrPatterns_def split: option.splits)
qed

theorem third_pattern_unreachable_witness:
  "str_match bsr_pattern3 (js ''Amazon Best Sellers Rank: #1,234 in Books'') \<noteq> None \<and>
   str_match bsr_pattern1 (js ''Amazon Best Sellers Rank: #1,234 in Books'') \<noteq> None \<and>
   bsr_loop [bsr_pattern1, bsr_pattern2, bsr_pattern4]
     (js ''Amazon Best Sellers Rank: #1,234 in Books'') (Num 999999) = Num 1234"
  using third_pattern_unreachable [of "js ''Amazon Best Sellers Rank: #1,234 in Books''"]
  by (simp add: eval_simps extract_bsr_def bsrPatterns_def)

text \<open>
  On this text the third pattern captures \<open>7\<close> and the first one \<open>5\<close>: the first pattern
  matches at the start of the text, before the place where the third one matches.
\<close>

theorem third_pattern_capture_counterexample:
  "map_option group1
     (str_match bsr_pattern3 (js ''Best Sellers Rank #5 Amazon Best Sellers Rank #7''))
     = Some (js ''7'') \<and>
   map_option group1
     (str_match bsr_pattern1 (js ''Best Sellers Rank #5 Amazon Best Sellers Rank #7''))
     = Some (js ''5'')"
  by (simp add: eval_simps)

section \<open>Properties of the pattern extractor: review count\<close>

lemma strict_eq_zero: "strict_eq r (Num 0) = (r = Num 0)"
  by (cases r) auto

text \<open>
  C5, as amended. The review count comes from three strategies tried in order, each
  reading the digits its pattern captures with the commas removed. A strategy settles
  the result only when its number is not 0: the second pattern is consulted when the
  first does not match or yields 0, the third when the first two leave 0. The result is
  0 when no pattern matches. The text \<open>(1,234 ratings)\<close> yields 1234 and the text
  \<open>5,000 global ratings\<close> yields 5000.
\<close>

theorem review_strategies_gated_by_zero:
  "extract_reviews txt =
     (if review_strategy review_pattern1 txt (Num 0) \<noteq> Num 0
      then review_strategy review_pattern1 txt (Num 0)
      else if review_strategy review_pattern2 txt (Num 0) \<noteq> Num 0
      then review_strategy review_pattern2 txt (Num 0)
      else review_strategy review_pattern3 txt (Num 0)) \<and>
   (str_match review_pattern1 txt = None \<and> str_match review_pattern2 txt = None \<and>
    str_match review_pattern3 txt = None \<longrightarrow> extract_reviews txt = Num 0) \<and>
   extract_reviews (js ''(1,234 ratings)'') = Num 1234 \<and>
   extract_reviews (js ''5,000 global ratings'') = Num 5000"
proof (intro conjI impI)
  show "extract_reviews txt =
     (if review_strategy review_pattern1 txt (Num 0) \<noteq> Num 0
      then review_strategy review_pattern1 txt (Num 0)
      else if review_strategy review_pattern2 txt (Num 0) \<noteq> Num 0
      then review_strategy review_pattern2 txt (Num 0)
      else review_strategy review_pattern3 txt (Num 0))"
    by (simp add: extract_reviews_def Let_def strict_eq_zero)
next
  assume "str_match review_pattern1 txt = None \<and> str_match review_pattern2 txt = None \<and>
    str_match review_pattern3 txt = None"
  then show "extract_reviews txt = Num 0"
    by (simp add: extract_reviews_def Let_def review_strategy_def)
next
  show "extract_reviews (js ''(1,234 ratings)'') = Num 1234"
    by (simp add: eval_simps extract_reviews_def review_strategy_def)
next
  show "extract_reviews (js ''5,000 global ratings'') = Num 5000"
    by (simp add: eval_simps extract_reviews_def review_strategy_def)
qed

theorem review_strategies_gated_by_zero_witness:
  "str_match review_pattern1 (js ''Paperback'') = None \<and>
   str_match review_pattern2 (js ''Paperback'') = None \<and>
   str_match review_pattern3 (js ''Paperback'') = None \<and>
   extract_reviews (js ''Paperback'') = Num 0"
  using review_strategies_gated_by_zero [of "js ''Paperback''"]
  by (simp add: eval_simps review_strategy_def)

text \<open>
  Here the first pattern matches and captures \<open>0\<close>; the second pattern is consulted all
  the same and the result is 5000.
\<close>

theorem review_zero_match_counterexample:
  "map_option group1 (str_match review_pattern1 (js ''(0 ratings) 5,000 global ratings''))
     = Some (js ''0'') \<and>
   extract_reviews (js ''(0 ratings) 5,000 global ratings'') = Num 5000"
  by (simp add: eval_simps extract_reviews_def review_strategy_def)

section \<open>Properties of the pattern extractor: title\<close>

lemma last_dropWhile_nonempty: "dropWhile P xs \<noteq> [] \<Longrightarrow> last (dropWhile P xs) = last xs"
  by (induction xs) (auto split: if_splits)

lemma trim_idem: "trim (trim s) = trim s"
proof -
  define t where "t = dropWhile is_space s"
  define u where "u = rev (dropWhile is_space (rev t))"
  have ts: "trim s = u" by (simp add: trim_def t_def u_def)
  have "dropWhile is_space u = u"
  proof (cases u)
    case Nil
    then show ?thesis by simp
  next
    case (Cons x xs)
    then have ne: "dropWhile is_space (rev t) \<noteq> []" by (auto simp: u_def)
    then have tne: "t \<noteq> []" by auto
    have "x = hd u" using Cons by simp
    also have "\<dots> = last (dropWhile is_space (rev t))" using ne by (simp add: u_def hd_rev)
    also have "\<dots> = last (rev t)" using ne by (rule last_dropWhile_nonempty)
    also have "\<dots> = hd t" using tne by (simp add: last_rev)
    finally have "\<not> is_space x" using tne hd_dropWhile [of is_space s] by (simp add: t_def)
    then show ?thesis using Cons by simp
  qed
  then have "trim u = rev (dropWhile is_space (rev u))" by (simp add: trim_def)
  also have "\<dots> = u" by (simp add: u_def)
  finally show ?thesis using ts by simp
qed

lemma extract_title_first_only:
  "extract_title e = (case h2_a_span e of [] \<Rightarrow> [] | t # _ \<Rightarrow> trim t)"
  by (simp add: extract_title_def or_selection_def truthy_selection_def first_def text_of_def
           split: list.splits)

lemma extract_title_trimmed: "trim (extract_title e) = extract_title e"
  by (simp add: extract_title_first_only trim_idem trim_def [of "[]"] split: list.splits)

text \<open>
  C6. The title is meant to come from the first of three nodes that is present. Every
  selection is truthy, so the chain of \<open>||\<close> always yields the first selection: a
  fragment without an \<open>h2 a span\<close> node gets the empty title and is dropped, although the
  second and third node carry a title.
\<close>

theorem title_fallback_never_taken:
  "extract_title
     \<lparr>element_text = js ''The Joy of Cooking'', h2_a_span = [],
      h2_text_normal = [js ''The Joy of Cooking''], h2_a = [js ''The Joy of Cooking''],
      data_asin = Some (js ''0743246268''), a_price_whole = [], a_icon_alt = []\<rparr> = [] \<and>
   extract_item
     \<lparr>element_text = js ''The Joy of Cooking'', h2_a_span = [],
      h2_text_normal = [js ''The Joy of Cooking''], h2_a = [js ''The Joy of Cooking''],
      data_asin = Some (js ''0743246268''), a_price_whole = [], a_icon_alt = []\<rparr> = None"
  by (simp add: extract_item_def extract_title_def or_selection_def truthy_selection_def
        first_def)

section \<open>Properties of the pattern extractor: rating\<close>

text \<open>The group of the rating pattern starts with a digit, so \<open>parseFloat\<close> reads a number.\<close>

lemma rating_group_starts_with_digit:
  assumes "m \<in> set (match_at rating_pattern s)"
  shows "\<exists>d ds. group1 m = d # ds \<and> is_digit d"
proof -
  let ?rest = "[Opt (Atom (Lit (ch CHR ''.''))), Star (Atom Dig)]"
  from assms obtain s2 where
    s2: "s2 \<in> set (rests False (cat (Plus (Atom Dig) # ?rest)) s)" and
    g: "group1 m = take (length s - length s2) s"
    by (auto simp: match_at_def rating_pattern_def cat_def [of "[]"])
  from s2 obtain s1 where s1: "s1 \<in> set (rests False (Plus (Atom Dig)) s)"
    and s2': "s2 \<in> set (rests False (cat ?rest) s1)"
    unfolding rests_cat_Cons by auto
  from s1 obtain d ds where s: "s = d # ds" and d: "is_digit d"
    and s1': "s1 \<in> set (rests False (Star (Atom Dig)) ds)"
    by (cases s) (auto simp: Plus_def split: if_splits)
  have "length s2 \<le> length ds"
    using rests_length [OF s2'] rests_length [OF s1'] by simp
  then have "group1 m = d # take (length ds - length s2) ds"
    using g s by (simp add: Suc_diff_le)
  with d show ?thesis by blast
qed

lemma parseFloat_digit_first:
  assumes "is_digit d"
  shows "\<exists>r \<ge> 0. parseFloat (d # ds) = Num r"
proof -
  have "takeWhile is_digit (d # ds) \<noteq> []" using assms by simp
  then show ?thesis
    unfolding parseFloat_def Let_def by (auto intro!: divide_nonneg_nonneg)
qed

lemma extract_rating_nonneg: "\<exists>r \<ge> 0. extract_rating e = Num r"
proof (cases "a_icon_alt e = []")
  case True
  then show ?thesis by (simp add: extract_rating_def)
next
  case False
  show ?thesis
  proof (cases "str_match rating_pattern (text_of (a_icon_alt e))")
    case None
    then show ?thesis using False by (simp add: extract_rating_def)
  next
    case (Some m)
    from str_match_Some_member [OF Some] obtain t ms where "match_at rating_pattern t = m # ms"
      by blast
    then have "m \<in> set (match_at rating_pattern t)" by simp
    from rating_group_starts_with_digit [OF this] obtain d ds
      where "group1 m = d # ds" "is_digit d" by blast
    then show ?thesis
      using Some False parseFloat_digit_first [of d ds] by (simp add: extract_rating_def)
  qed
qed

lemma extract_item_rating: "extract_item e = Some it \<Longrightarrow> rating it = extract_rating e"
  by (auto simp: extract_item_def Let_def split: if_splits)

section \<open>Properties of the listing aggregator\<close>

lemma extract_item_None_iff: "extract_item e = None \<longleftrightarrow> length (extract_title e) < 5"
  by (auto simp: extract_item_def Let_def)

lemma extract_item_title: "extract_item e = Some it \<Longrightarrow> title it = extract_title e"
  by (auto simp: extract_item_def Let_def split: if_splits)

lemma item_loop_map_filter: "item_loop es acc = acc @ List.map_filter extract_item es"
  by (induction es arbitrary: acc) (auto split: option.splits)

lemma scrape_items_map_filter: "scrape_items els = List.map_filter extract_item (take 20 els)"
proof -
  have "take (min (length els) 20) els = take 20 els" by (simp add: min_def)
  then show ?thesis by (simp add: scrape_items_def item_loop_map_filter)
qed

lemma items_parse_page: "items (parse_page pg) = scrape_items (search_results pg)"
  by (simp add: parse_page_def Let_def)

subsection \<open>The ratings of the items\<close>

text \<open>
  C8, as amended. The rating of a fragment is a number that is not negative: 0 when the
  label does not match, and otherwise the numeral that stands before \<open>out of\<close>, whatever
  its size. So is the rating of every item of a page. It is not bounded by 5.
\<close>

theorem rating_nonnegative:
  "(\<exists>r \<ge> 0. extract_rating e = Num r) \<and>
   (str_match rating_pattern (text_of (a_icon_alt e)) = None \<longrightarrow> extract_rating e = Num 0) \<and>
   (a_icon_alt e \<noteq> [] \<and> str_match rating_pattern (text_of (a_icon_alt e)) = Some m \<longrightarrow>
      extract_rating e = parseFloat (group1 m)) \<and>
   (\<forall>it \<in> set (items (parse_page pg)). \<exists>r \<ge> 0. rating it = Num r)"
proof (intro conjI impI ballI)
  show "\<exists>r \<ge> 0. extract_rating e = Num r" by (rule extract_rating_nonneg)
next
  assume "str_match rating_pattern (text_of (a_icon_alt e)) = None"
  then show "extract_rating e = Num 0" by (simp add: extract_rating_def Let_def)
next
  assume "a_icon_alt e \<noteq> [] \<and> str_match rating_pattern (text_of (a_icon_alt e)) = Some m"
  then show "extract_rating e = parseFloat (group1 m)" by (simp add: extract_rating_def Let_def)
next
  fix it assume "it \<in> set (items (parse_page pg))"
  then obtain x where "extract_item x = Some it"
    by (auto simp: items_parse_page scrape_items_map_filter List.map_filter_def)
  then have "rating it = extract_rating x" by (rule extract_item_rating)
  then show "\<exists>r \<ge> 0. rating it = Num r" using extract_rating_nonneg [of x] by simp
qed

theorem rating_nonnegative_witness:
  "extract_rating
     \<lparr>element_text = [], h2_a_span = [], h2_text_normal = [], h2_a = [], data_asin = None,
      a_price_whole = [], a_icon_alt = [js ''4.5 out of 5 stars'']\<rparr> = Num (9 / 2) \<and>
   str_match rating_pattern (js ''no stars yet'') = None \<and>
   extract_rating
     \<lparr>element_text = [], h2_a_span = [], h2_text_normal = [], h2_a = [], data_asin = None,
      a_price_whole = [], a_icon_alt = [js ''no stars yet'']\<rparr> = Num 0"
  using rating_nonnegative
          [of "\<lparr>element_text = [], h2_a_span = [], h2_text_normal = [], h2_a = [],
                data_asin = None, a_price_whole = [],
                a_icon_alt = [js ''4.5 out of 5 stars'']\<rparr>"
              "\<lparr>whole = js ''4.5 out of'', group1 = js ''4.5''\<rparr>"]
        rating_nonnegative
          [of "\<lparr>element_text = [], h2_a_span = [], h2_text_normal = [], h2_a = [],
                data_asin = None, a_price_whole = [],
                a_icon_alt = [js ''no stars yet'']\<rparr>"]
  by (simp add: eval_simps text_of_def)

text \<open>
  The label \<open>9.9 out of 10\<close> gives an item whose rating is 9.9, which is above 5.
\<close>

theorem rating_above_five_counterexample:
  "map rating (items (parse_page
     \<lparr>result_info_bar = [], small_section = [],
      search_results =
        [\<lparr>element_text = js ''Salt Fat Acid Heat'', h2_a_span = [js ''Salt Fat Acid Heat''],
          h2_text_normal = [], h2_a = [], data_asin = None, a_price_whole = [],
          a_icon_alt = [js ''9.9 out of 10'']\<rparr>]\<rparr>)) = [Num (99 / 10)] \<and>
   \<not> num_le (Num (99 / 10)) (Num 5)"
  by (simp add: eval_simps items_parse_page scrape_items_def extract_item_def
        extract_title_first_only trim_def extract_rating_def text_of_def Let_def)

subsection \<open>The titles of the items\<close>

text \<open>
  C7. The items of a page are what the extractor yields on the first 20 fragments, in
  order, the fragments whose trimmed title has fewer than 5 characters left out: such a
  fragment adds nothing to the list. Every item of the list has a title of at least 5
  characters that trimming does not change.
\<close>

theorem items_have_valid_titles:
  "items (parse_page pg) = List.map_filter extract_item (take 20 (search_results pg)) \<and>
   (extract_item e = None) = (length (extract_title e) < 5) \<and>
   length (items (parse_page pg))
     = length (filter (\<lambda>e. 5 \<le> length (extract_title e)) (take 20 (search_results pg))) \<and>
   (\<forall>it \<in> set (items (parse_page pg)). 5 \<le> length (title it) \<and> trim (title it) = title it)"
proof -
  have a: "items (parse_page pg) = List.map_filter extract_item (take 20 (search_results pg))"
    by (simp add: items_parse_page scrape_items_map_filter)
  have b: "(extract_item e = None) = (length (extract_title e) < 5)"
    by (rule extract_item_None_iff)
  have c: "length (List.map_filter extract_item xs)
             = length (filter (\<lambda>e. 5 \<le> length (extract_title e)) xs)" for xs
    by (simp add: List.map_filter_def extract_item_None_iff not_less)
  have d: "5 \<le> length (title it) \<and> trim (title it) = title it"
    if "it \<in> set (List.map_filter extract_item xs)" for it xs
  proof -
    from that obtain x where x: "extract_item x = Some it"
      by (auto simp: List.map_filter_def)
    then have "title it = extract_title x" by (rule extract_item_title)
    moreover have "\<not> length (extract_title x) < 5"
      using x extract_item_None_iff [of x] by simp
    ultimately show ?thesis by (simp add: extract_title_trimmed)
  qed
  show ?thesis
    unfolding a using b c [of "take 20 (search_results pg)"] d [of _ "take 20 (search_results pg)"]
    by simp
qed

theorem items_have_valid_titles_witness:
  "length (items (parse_page
     \<lparr>result_info_bar = [], small_section = [],
      search_results =
        [\<lparr>element_text = js ''Ad'', h2_a_span = [js ''  Ad  ''], h2_text_normal = [],
          h2_a = [], data_asin = None, a_price_whole = [], a_icon_alt = []\<rparr>,
         \<lparr>element_text = js ''Salt Fat Acid Heat'', h2_a_span = [js '' Salt Fat Acid Heat ''],
          h2_text_normal = [], h2_a = [], data_asin = None, a_price_whole = [],
          a_icon_alt = []\<rparr>]\<rparr>)) = 1 \<and>
   list_all (\<lambda>it. 5 \<le> length (title it) \<and> trim (title it) = title it)
     (items (parse_page
       \<lparr>result_info_bar = [], small_section = [],
        search_results =
          [\<lparr>element_text = js ''Ad'', h2_a_span = [js ''  Ad  ''], h2_text_normal = [],
            h2_a = [], data_asin = None, a_price_whole = [], a_icon_alt = []\<rparr>,
           \<lparr>element_text = js ''Salt Fat Acid Heat'',
            h2_a_span = [js '' Salt Fat Acid Heat ''],
            h2_text_normal = [], h2_a = [], data_asin = None, a_price_whole = [],
            a_icon_alt = []\<rparr>]\<rparr>))"
  using items_have_valid_titles
          [of "\<lparr>result_info_bar = [], small_section = [],
                search_results =
                  [\<lparr>element_text = js ''Ad'', h2_a_span = [js ''  Ad  ''],
                    h2_text_normal = [], h2_a = [], data_asin = None, a_price_whole = [],
                    a_icon_alt = []\<rparr>,
                   \<lparr>element_text = js ''Salt Fat Acid Heat'',
                    h2_a_span = [js '' Salt Fat Acid Heat ''],
                    h2_text_normal = [], h2_a = [], data_asin = None, a_price_whole = [],
                    a_icon_alt = []\<rparr>]\<rparr>"]
  by (simp add: list_all_iff extract_item_def Let_def extract_title_first_only trim_def js_def
        ch_def is_space_def is_white_space_def is_line_terminator_def)

section \<open>Properties of the scoring engine\<close>

text \<open>
  C1. For every non-negative integer total result count the popularity score is
  green with value 100 exactly when the count is at most 1000, yellow with value 50
  exactly when it lies between 1001 and 3000, and red with value 0 exactly when it is
  above 3000.
\<close>

theorem popularity_tiers:
  fixes n :: nat
  shows "(score (calculatePopularity (Num (of_nat n))) = green \<and>
          value (calculatePopularity (Num (of_nat n))) = 100) = (n \<le> 1000) \<and>
         (score (calculatePopularity (Num (of_nat n))) = yellow \<and>
          value (calculatePopularity (Num (of_nat n))) = 50) = (1001 \<le> n \<and> n \<le> 3000) \<and>
         (score (calculatePopularity (Num (of_nat n))) = red \<and>
          value (calculatePopularity (Num (of_nat n))) = 0) = (3000 < n)"
proof -
  have a: "((of_nat n :: rat) \<le> 1000) = (n \<le> 1000)"
    using of_nat_le_iff [of n 1000, where 'a = rat] by simp
  have b: "((of_nat n :: rat) \<le> 3000) = (n \<le> 3000)"
    using of_nat_le_iff [of n 3000, where 'a = rat] by simp
  show ?thesis
    unfolding calculatePopularity_def by (auto simp: a b)
qed

lemma profitable_filter:
  "filter (\<lambda>item. num_gt (bsr item) (Num 0) \<and> num_le (bsr item) (Num 30000) \<and>
                   num_le (reviews item) (Num 200)) its = filter spec_profitable its"
proof (rule filter_cong [OF refl])
  fix i
  show "(num_gt (bsr i) (Num 0) \<and> num_le (bsr i) (Num 30000) \<and> num_le (reviews i) (Num 200))
          = spec_profitable i"
    by (cases "bsr i"; cases "reviews i") (auto simp: spec_profitable_def num_gt_def)
qed

lemma competitive_filter:
  "filter (\<lambda>item. num_ge (reviews item) (Num 500)) its = filter spec_competitive its"
proof (rule filter_cong [OF refl])
  fix i
  show "num_ge (reviews i) (Num 500) = spec_competitive i"
    by (cases "reviews i") (auto simp: spec_competitive_def num_ge_def)
qed

text \<open>
  C2. The count of the profitability score is the number of items whose rank is above 0
  and at most 30000 and whose review count is at most 200; the score is green with value
  100 exactly when that count is at least 6, yellow with value 50 exactly when it is 3,
  4 or 5, and red with value 0 exactly when it is below 3. The empty list gives count 0
  and red.
\<close>

theorem profitability_count_and_tiers:
  "count (calculateProfitability its) = length (filter spec_profitable its) \<and>
   (score (calculateProfitability its) = green \<and> value (calculateProfitability its) = 100)
     = (6 \<le> length (filter spec_profitable its)) \<and>
   (score (calculateProfitability its) = yellow \<and> value (calculateProfitability its) = 50)
     = (3 \<le> length (filter spec_profitable its) \<and> length (filter spec_profitable its) \<le> 5) \<and>
   (score (calculateProfitability its) = red \<and> value (calculateProfitability its) = 0)
     = (length (filter spec_profitable its) < 3) \<and>
   calculateProfitability [] = \<lparr>score = red, value = 0, count = 0\<rparr>"
  unfolding calculateProfitability_def profitable_filter by (auto simp: Let_def)

text \<open>
  C3. The count of the competition score is the number of items whose review count is at
  least 500; the score is green with value 100 exactly when that count is at most 3,
  yellow with value 50 exactly when it is 4, 5 or 6, and red with value 0 exactly when
  it is at least 7. The empty list gives count 0 and green, through the same branch as
  any other list.
\<close>

theorem competition_count_and_tiers:
  "count (calculateCompetition its) = length (filter spec_competitive its) \<and>
   (score (calculateCompetition its) = green \<and> value (calculateCompetition its) = 100)
     = (length (filter spec_competitive its) \<le> 3) \<and>
   (score (calculateCompetition its) = yellow \<and> value (calculateCompetition its) = 50)
     = (4 \<le> length (filter spec_competitive its) \<and> length (filter spec_competitive its) \<le> 6) \<and>
   (score (calculateCompetition its) = red \<and> value (calculateCompetition its) = 0)
     = (7 \<le> length (filter spec_competitive its)) \<and>
   calculateCompetition [] = \<lparr>score = green, value = 100, count = 0\<rparr>"
  unfolding calculateCompetition_def competitive_filter by (auto simp: Let_def)

section \<open>Properties of the orchestrator\<close>

text \<open>
  C9. The request is answered with the client error exactly when the keyword is missing
  or the empty string. For such a keyword the page fetcher is not called and the answer
  holds the error message only; for every other keyword the fetcher is called once and
  the answer is the analysis or the server error.
\<close>

theorem validation_error_iff_keyword_empty:
  "((\<exists>e. fst (analyze fetch kw trace) = Status400 e) = (kw = Undefined \<or> kw = QString [])) \<and>
   (kw = Undefined \<or> kw = QString [] \<longrightarrow>
      analyze fetch kw trace = (Status400 (js ''Keyword is required''), trace)) \<and>
   (kw \<noteq> Undefined \<and> kw \<noteq> QString [] \<longrightarrow>
      snd (analyze fetch kw trace) = trace @ [kw] \<and>
      (\<forall>e. fst (analyze fetch kw trace) \<noteq> Status400 e))"
  by (cases kw; cases "fetch kw")
     (auto simp: analyze_def scrapeAmazonData_def split: sum.splits prod.splits)

theorem validation_error_iff_keyword_empty_witness:
  "analyze (\<lambda>k. Inl (js ''Navigation timeout'')) Undefined [] =
     (Status400 (js ''Keyword is required''), []) \<and>
   analyze (\<lambda>k. Inl (js ''Navigation timeout'')) (QString []) [] =
     (Status400 (js ''Keyword is required''), []) \<and>
   snd (analyze (\<lambda>k. Inl (js ''Navigation timeout'')) (QString (js ''cooking'')) []) =
     [QString (js ''cooking'')]"
  using validation_error_iff_keyword_empty
          [of "\<lambda>k. Inl (js ''Navigation timeout'')" Undefined "[]"]
        validation_error_iff_keyword_empty
          [of "\<lambda>k. Inl (js ''Navigation timeout'')" "QString []" "[]"]
        validation_error_iff_keyword_empty
          [of "\<lambda>k. Inl (js ''Navigation timeout'')" "QString (js ''cooking'')" "[]"]
  by (simp add: js_def)

end
